theory Spec2Isabelle
  imports Complex_Main
begin

section \<open>Errors\<close>

text \<open>
  The exceptions that the modelled functions can raise.  \<open>ValueError\<close> carries the
  message of the two \<^verbatim>\<open>raise ValueError(...)\<close> statements of the constructor.
\<close>

datatype py_error = IndexError | TypeError | ValueError string

section \<open>File names and category ids\<close>

text \<open>
  \<^verbatim>\<open>FILE_PATTERN = r'p([0-9]+)_([0-9]+)\.wav'\<close>.  A file name is a \<open>string\<close>.
  \<open>match_at s\<close> is a match of the pattern that starts at the first character of \<open>s\<close>:
  the two groups and the text after the match.  Both groups are greedy digit runs; a
  shorter run would be followed by a digit where the pattern wants \<open>_\<close> or \<open>.\<close>, so
  backtracking never finds a match that the longest run misses.
\<close>

definition is_digit :: "char \<Rightarrow> bool" where
  "is_digit c \<longleftrightarrow> c \<in> set ''0123456789''"

definition match_at :: "string \<Rightarrow> ((string \<times> string) \<times> string) option" where
  "match_at s =
     (case s of
        [] \<Rightarrow> None
      | c # r \<Rightarrow>
          if c \<noteq> CHR ''p'' then None
          else let g1 = takeWhile is_digit r; r1 = dropWhile is_digit r in
            if g1 = [] then None
            else (case r1 of
                [] \<Rightarrow> None
              | u # r2 \<Rightarrow>
                  if u \<noteq> CHR ''_'' then None
                  else let g2 = takeWhile is_digit r2; r3 = dropWhile is_digit r2 in
                    if g2 = [] then None
                    else if take 4 r3 = ''.wav'' then Some ((g1, g2), drop 4 r3)
                    else None))"

text \<open>
  \<^verbatim>\<open>re.findall\<close>: the groups of every match, scanning from the left; after a match the
  scan goes on behind it, otherwise one character further.
\<close>

function findall :: "string \<Rightarrow> (string \<times> string) list" where
  "findall [] = []"
| "findall (c # cs) =
     (case match_at (c # cs) of
        Some (g, rest) \<Rightarrow> g # findall rest
      | None \<Rightarrow> findall cs)"
  by pat_completeness auto

lemma match_at_shorter: "match_at s = Some (g, rest) \<Longrightarrow> length rest < length s"
proof -
  assume m: "match_at s = Some (g, rest)"
  have d: "\<And>xs :: string. length (dropWhile is_digit xs) \<le> length xs"
    by (rule length_dropWhile_le)
  from m obtain r r2 where
    s: "s = CHR ''p'' # r" and
    r1: "dropWhile is_digit r = CHR ''_'' # r2" and
    rest: "rest = drop 4 (dropWhile is_digit r2)"
    by (auto simp: match_at_def Let_def split: list.splits if_splits)
  have "length rest \<le> length r2" using rest d [of r2] by simp
  also have "length r2 < length (dropWhile is_digit r)" using r1 by simp
  also have "\<dots> \<le> length r" by (rule d)
  also have "length r < length s" using s by simp
  finally show ?thesis .
qed

termination findall
  by (relation "measure length") (auto dest: match_at_shorter)

text \<open>\<^verbatim>\<open>int(id_)\<close> on a run of ASCII digits: its decimal value.\<close>

definition digit_val :: "char \<Rightarrow> int" where
  "digit_val c = int (of_char c) - 48"

definition py_int :: "string \<Rightarrow> int" where
  "py_int ds = foldl (\<lambda>acc c. 10 * acc + digit_val c) 0 ds"

text \<open>
  \<^verbatim>\<open>get_category_cardinality\<close>.  The loop state is \<open>(min_id, max_id)\<close>, both \<open>None\<close> at
  the start.  \<^verbatim>\<open>findall(filename)[0]\<close> raises \<open>IndexError\<close> when there is no match.
\<close>

fun cardinality_loop ::
  "string list \<Rightarrow> int option \<times> int option \<Rightarrow> py_error + (int option \<times> int option)" where
  "cardinality_loop [] (min_id, max_id) = Inr (min_id, max_id)"
| "cardinality_loop (filename # files) (min_id, max_id) =
     (case findall filename of
        [] \<Rightarrow> Inl IndexError
      | matches # _ \<Rightarrow>
          let pianist_id = py_int (fst matches);
              recording_id = py_int (snd matches);
              min_id' = (case min_id of
                           None \<Rightarrow> Some pianist_id
                         | Some m \<Rightarrow> if pianist_id < m then Some pianist_id else Some m);
              max_id' = (case max_id of
                           None \<Rightarrow> Some pianist_id
                         | Some m \<Rightarrow> if pianist_id > m then Some pianist_id else Some m)
          in cardinality_loop files (min_id', max_id'))"

definition get_category_cardinality ::
  "string list \<Rightarrow> py_error + (int option \<times> int option)" where
  "get_category_cardinality files = cardinality_loop files (None, None)"

text \<open>\<^verbatim>\<open>not_all_have_id\<close>: true iff some file name has no match.\<close>

fun not_all_have_id :: "string list \<Rightarrow> bool" where
  "not_all_have_id [] = False"
| "not_all_have_id (f # files) = (if findall f = [] then True else not_all_have_id files)"

section \<open>The reader object\<close>

text \<open>
  The configuration fields of \<^verbatim>\<open>AudioReader\<close> that the worker reads.  Lengths are
  sample counts.  \<open>sample_size = None\<close> is the default \<^verbatim>\<open>sample_size=None\<close>, and
  \<open>silence_threshold = None\<close> the default \<^verbatim>\<open>silence_threshold=None\<close>.  The queues and
  placeholders are TensorFlow objects; what is pushed on them is recorded as events
  (below).
\<close>

record audio_reader =
  sample_size :: "nat option"
  receptive_field :: nat
  silence_threshold :: "real option"
  gc_enabled :: bool
  lc_enabled :: bool
  gc_category_cardinality :: "int option"

text \<open>
  \<^verbatim>\<open>AudioReader.__init__\<close>, from the file check on.  \<open>files\<close> is what
  \<^verbatim>\<open>find_files(audio_dir)\<close> returned (the directory walk is the file system's).
  \<^verbatim>\<open>self.gc_category_cardinality += 1\<close> on \<open>None\<close> would be a \<open>TypeError\<close>.
\<close>

definition AudioReader_init ::
  "string list \<Rightarrow> bool \<Rightarrow> bool \<Rightarrow> nat \<Rightarrow> nat option \<Rightarrow> real option \<Rightarrow> py_error + audio_reader" where
  "AudioReader_init files gc lc rf ss st =
     (let self = \<lparr>sample_size = ss, receptive_field = rf, silence_threshold = st,
                  gc_enabled = gc, lc_enabled = lc, gc_category_cardinality = None\<rparr> in
      if files = [] then Inl (ValueError ''No audio files found'')
      else if gc \<and> not_all_have_id files then
        Inl (ValueError ''Global conditioning is enabled, but file names do not conform to pattern having id.'')
      else if gc then
        (case get_category_cardinality files of
           Inl e \<Rightarrow> Inl e
         | Inr (_, max_id) \<Rightarrow>
             (case max_id of
                None \<Rightarrow> Inl TypeError
              | Some m \<Rightarrow> Inr (self\<lparr>gc_category_cardinality := Some (m + 1)\<rparr>)))
      else Inr self)"

section \<open>Library primitives\<close>

text \<open>
  The numeric routines of librosa and numpy that the code calls are parameters of the
  model: \<open>rmse audio frame_length\<close> is the row of per-frame energies that
  \<^verbatim>\<open>librosa.feature.rmse\<close> returns, \<open>piptrack piece\<close> the magnitude matrix
  (channels by frames) of \<^verbatim>\<open>librosa.piptrack\<close>, \<open>argpartition a kth\<close> the index
  array of \<^verbatim>\<open>np.argpartition\<close>, \<open>load filename sample_rate\<close> the samples of
  \<^verbatim>\<open>librosa.load(filename, sr=sample_rate, mono=True)\<close> and \<open>normalize\<close> those of
  \<^verbatim>\<open>librosa.util.normalize\<close>.

  Samples, energies and magnitudes are float32 numbers, modelled by the reals they
  denote.  The code compares them, tests them against zero and stores 0.0 and 1.0, and
  does no arithmetic on them.  Where a Python float meets a float32 array, numpy first
  casts the float to float32: \<open>float32 x\<close> is the value of that cast.
\<close>

record library =
  rmse :: "real list \<Rightarrow> nat \<Rightarrow> real list"
  piptrack :: "real list \<Rightarrow> real list list"
  argpartition :: "real list \<Rightarrow> int \<Rightarrow> nat list"
  float32 :: "real \<Rightarrow> real"
  load :: "string \<Rightarrow> nat \<Rightarrow> real list"
  normalize :: "real list \<Rightarrow> real list"

section \<open>Silence trimming\<close>

text \<open>\<^verbatim>\<open>a[i:j]\<close> and \<^verbatim>\<open>a[-k:]\<close> for non-negative \<open>i\<close>, \<open>j\<close> and positive \<open>k\<close>.\<close>

definition py_slice :: "nat \<Rightarrow> nat \<Rightarrow> 'a list \<Rightarrow> 'a list" where
  "py_slice i j xs = drop i (take j xs)"

definition py_last_n :: "nat \<Rightarrow> 'a list \<Rightarrow> 'a list" where
  "py_last_n k xs = drop (length xs - k) xs"

text \<open>
  \<^verbatim>\<open>librosa.core.frames_to_samples\<close> with its default \<^verbatim>\<open>hop_length=512\<close>: frame
  number times hop length.
\<close>

definition frames_to_samples :: "nat list \<Rightarrow> nat list" where
  "frames_to_samples frames = map (\<lambda>f. f * 512) frames"

text \<open>
  \<^verbatim>\<open>trim_silence\<close>, on a one-dimensional waveform.  The energy is a float32 array of
  shape \<open>(1, n_frames)\<close> and the threshold a Python float, so \<^verbatim>\<open>energy > threshold\<close>
  compares each energy with the threshold cast to float32.  \<^verbatim>\<open>np.nonzero\<close> gives
  (row numbers, frame numbers) and \<^verbatim>\<open>[1]\<close> picks the frame numbers.  The
  \<^verbatim>\<open>except TypeError\<close> branch calls the same primitive under its other keyword.
\<close>

definition trim_silence :: "library \<Rightarrow> real list \<Rightarrow> real \<Rightarrow> nat \<Rightarrow> real list" where
  "trim_silence lib audio threshold frame_length =
     (let frame_length' = (if length audio < frame_length then length audio else frame_length);
          energy = rmse lib audio frame_length';
          frames = filter (\<lambda>j. energy ! j > float32 lib threshold) [0..<length energy];
          indices = frames_to_samples frames
      in if indices \<noteq> [] then py_slice (hd indices) (last indices) audio
         else py_slice 0 0 audio)"

section \<open>The conditioning embedding\<close>

text \<open>
  \<^verbatim>\<open>np.put(row, ind, [1.0])\<close> writes 1.0 at each index of \<open>ind\<close>.  numpy raises
  \<open>IndexError\<close> on an index out of range; the indices here are the index array of
  \<^verbatim>\<open>np.argpartition\<close> on the same row, a permutation of its positions, so none is.
  Where the parameter \<open>argpartition\<close> of the model returns one all the same, the update
  leaves the row as it is.
\<close>

definition np_put_one :: "real list \<Rightarrow> nat list \<Rightarrow> real list" where
  "np_put_one row ind = fold (\<lambda>i r. r[i := 1]) ind row"

definition nonzero_cnt :: "real list \<Rightarrow> nat" where
  "nonzero_cnt mag = length (filter (\<lambda>x. x \<noteq> 0) mag)"

text \<open>One pass of the \<^verbatim>\<open>for i in range(magnitudes.shape[0])\<close> loop: row \<open>i\<close> of the embedding.\<close>

definition lc_row :: "library \<Rightarrow> real list \<Rightarrow> real list" where
  "lc_row lib mag =
     (let num_ind_to_keep = min (nonzero_cnt mag) 6;
          ind_of_largest_mags =
            (if num_ind_to_keep \<noteq> 0
             then py_last_n num_ind_to_keep (argpartition lib mag (- int num_ind_to_keep))
             else [])
      in np_put_one (replicate (length mag) 0) ind_of_largest_mags)"

definition lc_rows :: "library \<Rightarrow> real list list \<Rightarrow> real list list" where
  "lc_rows lib magnitudes = map (lc_row lib) magnitudes"

text \<open>
  The \<^verbatim>\<open>DEV\<close> block: the pitch magnitudes of the piece, a matrix of channels by
  frames, transposed to frames by channels.
\<close>

definition lc_embedding :: "library \<Rightarrow> real list \<Rightarrow> real list list" where
  "lc_embedding lib piece = lc_rows lib (transpose (piptrack lib piece))"

section \<open>The worker\<close>

text \<open>
  What a worker does to the outside, in order: a \<^verbatim>\<open>sess.run\<close> of one of the three
  enqueue operations with the value fed, or a printed line.
\<close>

datatype event =
    Enqueue "real list"
  | GcEnqueue "int option"
  | LcEnqueue "real list list"
  | Print string

text \<open>
  The \<^verbatim>\<open>while len(audio) > window\<close> loop.  \<open>S\<close> is the value of
  \<^verbatim>\<open>self.sample_size\<close>, \<open>sess\<close> the events so far.  The loop does not return when
  \<open>S = 0\<close> and the waveform is longer than the receptive field.
\<close>

partial_function (option) window_loop ::
  "library \<Rightarrow> audio_reader \<Rightarrow> nat \<Rightarrow> int option \<Rightarrow> real list \<Rightarrow> event list \<Rightarrow> event list option" where
  "window_loop lib self S category_id audio sess =
     (let window = receptive_field self + S in
      if length audio > window then
        let piece = take window audio;
            sess1 = sess @ [Enqueue piece];
            audio' = drop S audio;
            sess2 = (if gc_enabled self then sess1 @ [GcEnqueue category_id] else sess1);
            sess3 = (if lc_enabled self then sess2 @ [LcEnqueue (lc_embedding lib piece)]
                     else sess2)
        in window_loop lib self S category_id audio' sess3
      else Some sess)"

declare window_loop.simps [code]

text \<open>
  A waveform is a numpy array: \<open>Vec xs\<close> has shape \<open>(n,)\<close> and \<open>Col xs\<close> has shape
  \<open>(n, 1)\<close> with the column \<open>xs\<close>.
\<close>

datatype ndarray = Vec "real list" | Col "real list"

text \<open>\<^verbatim>\<open>"{}".format(n)\<close> for a length \<open>n\<close>: its decimal digits.\<close>

function str_nat :: "nat \<Rightarrow> string" where
  "str_nat n =
     (if n < 10 then [''0123456789'' ! n]
      else str_nat (n div 10) @ [''0123456789'' ! (n mod 10)])"
  by pat_completeness auto

termination str_nat
  by (relation "measure id") auto

definition files_length_message :: "nat \<Rightarrow> string" where
  "files_length_message n = ''files length: '' @ str_nat n"

text \<open>
  \<^verbatim>\<open>load_generic_audio\<close>: what the generator yields for the file names that
  \<^verbatim>\<open>randomize_files\<close> draws, one draw per file found.  \<^verbatim>\<open>librosa.load\<close> with
  \<^verbatim>\<open>mono=True\<close> returns a one-dimensional array, normalising keeps its shape, and
  \<^verbatim>\<open>audio[:-5*sample_rate]\<close> drops its last \<open>5 * sample_rate\<close> samples (all of them when
  \<open>sample_rate\<close> is 0, where the slice is \<^verbatim>\<open>audio[:0]\<close>).  Nothing reshapes the array:
  every waveform yielded is a \<open>Vec\<close>.  The generator's line \<^verbatim>\<open>files length\<close> is printed
  when the worker asks for the first file; \<open>thread_main\<close> below logs it there.
\<close>

definition load_generic_audio ::
  "library \<Rightarrow> nat \<Rightarrow> string list \<Rightarrow> (ndarray \<times> string \<times> int option) list" where
  "load_generic_audio lib sample_rate randomized_files =
     map (\<lambda>filename.
            let ids = findall filename;
                category_id = (case ids of [] \<Rightarrow> None | m # _ \<Rightarrow> Some (py_int (fst m)));
                audio = load lib filename sample_rate;
                audio' = normalize lib audio;
                audio'' = (if sample_rate = 0 then []
                           else take (length audio' - 5 * sample_rate) audio')
            in (Vec audio'', filename, category_id))
         randomized_files"

text \<open>
  \<^verbatim>\<open>np.pad(audio, [[receptive_field, 0], [0, 0]], 'constant')\<close>: the column of the
  padded array.  The two pairs of pad widths fit an array of two dimensions; on one of
  shape \<open>(n,)\<close> numpy raises \<open>ValueError\<close> (the wording is that of the numpy releases
  which librosa's \<^verbatim>\<open>rmse\<close> ran on; later ones word it differently).
\<close>

definition pad_error :: "nat \<Rightarrow> py_error" where
  "pad_error rf =
     ValueError (''Unable to create correctly shaped tuple from [['' @ str_nat rf @ '', 0], [0, 0]]'')"

definition np_pad :: "nat \<Rightarrow> ndarray \<Rightarrow> py_error + real list" where
  "np_pad rf audio =
     (case audio of
        Vec xs \<Rightarrow> Inl (pad_error rf)
      | Col xs \<Rightarrow> Inr (replicate rf 0 @ xs))"

text \<open>
  How the worker, or a part of it, ends, with the events so far: an exception that
  nothing catches, a normal return, or \<^verbatim>\<open>stop = True; break\<close>.
\<close>

datatype result =
    Raised py_error "event list"
  | Returned "event list"
  | Stopped "event list"

text \<open>
  The body of \<^verbatim>\<open>for audio, filename, category_id in iterator\<close> after the
  \<^verbatim>\<open>should_stop\<close> check.  \<^verbatim>\<open>audio[:, 0]\<close> raises \<open>IndexError\<close> on an array of shape
  \<open>(n,)\<close>; on one of shape \<open>(n, 1)\<close> it is the column, which \<^verbatim>\<open>reshape(-1, 1)\<close> makes a
  column again after trimming.  \<^verbatim>\<open>if self.sample_size:\<close> is false for \<open>None\<close> and for
  \<open>0\<close>.  The body returns nothing (\<open>None\<close>) where the window loop does not return.
\<close>

definition silence_warning :: "string \<Rightarrow> string" where
  "silence_warning filename =
     ''Warning: '' @ filename @ '' was ignored as it contains only silence. Consider decreasing trim_silence threshold, or adjust volume of the audio.''"

definition thread_main_body ::
  "library \<Rightarrow> audio_reader \<Rightarrow> ndarray \<Rightarrow> string \<Rightarrow> int option \<Rightarrow> event list \<Rightarrow> result option" where
  "thread_main_body lib self audio filename category_id sess =
     (case (case silence_threshold self of
              None \<Rightarrow> Inr (audio, sess)
            | Some threshold \<Rightarrow>
                (case audio of
                   Vec xs \<Rightarrow> Inl IndexError
                 | Col xs \<Rightarrow>
                     let trimmed = trim_silence lib xs threshold 2048 in
                     Inr (Col trimmed,
                          if length trimmed = 0
                          then sess @ [Print (silence_warning filename)] else sess))) of
        Inl e \<Rightarrow> Some (Raised e sess)
      | Inr (audio1, sess1) \<Rightarrow>
          (case np_pad (receptive_field self) audio1 of
             Inl e \<Rightarrow> Some (Raised e sess1)
           | Inr audio2 \<Rightarrow>
               (case sample_size self of
                  Some (Suc s) \<Rightarrow>
                    map_option Returned (window_loop lib self (Suc s) category_id audio2 sess1)
                | _ \<Rightarrow>
                    let sess2 = sess1 @ [Enqueue audio2] in
                    Some (Returned (if gc_enabled self then sess2 @ [GcEnqueue category_id]
                                    else sess2)))))"

text \<open>
  The \<^verbatim>\<open>for\<close> loop over one pass of the iterator.  \<^verbatim>\<open>self.coord.should_stop()\<close> reads a
  flag that another thread sets; \<open>should_stop sess\<close> is what the call returns when the
  worker's log is \<open>sess\<close>.
\<close>

fun file_loop ::
  "library \<Rightarrow> audio_reader \<Rightarrow> (event list \<Rightarrow> bool) \<Rightarrow>
   (ndarray \<times> string \<times> int option) list \<Rightarrow> event list \<Rightarrow> result option" where
  "file_loop lib self should_stop [] sess = Some (Returned sess)"
| "file_loop lib self should_stop ((audio, filename, category_id) # iterator) sess =
     (if should_stop sess then Some (Stopped sess)
      else (case thread_main_body lib self audio filename category_id sess of
              Some (Returned sess') \<Rightarrow> file_loop lib self should_stop iterator sess'
            | r \<Rightarrow> r))"

text \<open>
  \<^verbatim>\<open>thread_main\<close>: the \<^verbatim>\<open>while not stop\<close> loop.  \<open>randomized epoch\<close> are the file names
  drawn in pass number \<open>epoch\<close>, and \<open>sample_rate\<close> is \<^verbatim>\<open>self.sample_rate\<close>.  The worker
  ends by an exception or by \<open>stop\<close>; with no file to draw it loops for ever.
\<close>

partial_function (option) thread_main ::
  "library \<Rightarrow> audio_reader \<Rightarrow> nat \<Rightarrow> (event list \<Rightarrow> bool) \<Rightarrow> (nat \<Rightarrow> string list) \<Rightarrow>
   nat \<Rightarrow> event list \<Rightarrow> result option" where
  "thread_main lib self sample_rate should_stop randomized epoch sess =
     (let files = randomized epoch;
          sess1 = sess @ [Print (files_length_message (length files))]
      in case file_loop lib self should_stop (load_generic_audio lib sample_rate files) sess1 of
           Some (Returned sess') \<Rightarrow>
             thread_main lib self sample_rate should_stop randomized (Suc epoch) sess'
         | r \<Rightarrow> r)"

declare thread_main.simps [code]

section \<open>Reading the event log and the file names\<close>

text \<open>The values fed to the sample queue, in the order of their pushes.\<close>

definition enqueued :: "event list \<Rightarrow> real list list" where
  "enqueued sess = concat (map (\<lambda>e. case e of Enqueue w \<Rightarrow> [w] | _ \<Rightarrow> []) sess)"

text \<open>The events of one pass of the window loop, for the piece it cuts.\<close>

definition piece_events :: "library \<Rightarrow> audio_reader \<Rightarrow> int option \<Rightarrow> real list \<Rightarrow> event list" where
  "piece_events lib self category_id piece =
     [Enqueue piece]
     @ (if gc_enabled self then [GcEnqueue category_id] else [])
     @ (if lc_enabled self then [LcEnqueue (lc_embedding lib piece)] else [])"

text \<open>
  The pieces that the hops of \<open>S\<close> samples reach while more than \<open>R + S\<close> samples
  remain: piece \<open>k\<close> starts at sample \<open>k * S\<close>.
\<close>

definition pieces :: "nat \<Rightarrow> nat \<Rightarrow> 'a list \<Rightarrow> 'a list list" where
  "pieces R S audio =
     map (\<lambda>k. take (R + S) (drop (k * S) audio)) [0..<(length audio - R - 1) div S]"

text \<open>The first group of the first match, as a number: the id the loop compares.\<close>

definition pianist_id :: "string \<Rightarrow> int" where
  "pianist_id filename = py_int (fst (hd (findall filename)))"

section \<open>What \<^verbatim>\<open>np.argpartition\<close> promises\<close>

text \<open>
  The index array \<open>p\<close> returned for array \<open>a\<close> and position \<open>kth\<close> (a negative \<open>kth\<close>
  counts from the end) is a permutation of the indices of \<open>a\<close>; the entry it puts at
  position \<open>kth\<close> is not below any entry before it and not above any entry from it on.
\<close>

definition argpartition_ok :: "real list \<Rightarrow> int \<Rightarrow> nat list \<Rightarrow> bool" where
  "argpartition_ok a kth p \<longleftrightarrow>
     (let k = nat (if kth < 0 then kth + int (length a) else kth) in
      sort p = [0..<length a] \<and>
      list_all (\<lambda>i. a ! i \<le> a ! (p ! k)) (take k p) \<and>
      list_all (\<lambda>i. a ! (p ! k) \<le> a ! i) (drop k p))"

section \<open>Example inputs\<close>

text \<open>
  A stand-in for the library: every frame's energy is the peak magnitude of the
  waveform, with one frame per 512 samples and one more; the pitch magnitudes are a
  fixed matrix of eight channels and two frames; the index array is a full sort; the
  cast to float32 leaves a number as it is (the thresholds of the examples are binary
  fractions); a file whose name starts with \<open>s\<close> holds eight samples of silence, any
  other file a ramp of ten samples; normalising divides by the peak.
\<close>

definition example_library :: library where
  "example_library =
     \<lparr>rmse = (\<lambda>audio frame_length.
                replicate (1 + length audio div 512) (foldr max (map abs audio) 0)),
      piptrack = (\<lambda>piece. [[3, 0], [0, 0], [5, 0], [1, 0], [4, 0], [2, 0], [7, 0], [6, 0]]),
      argpartition = (\<lambda>a kth. map snd (sort_key fst (zip a [0..<length a]))),
      float32 = (\<lambda>x. x),
      load = (\<lambda>filename sample_rate.
                if take 1 filename = ''s'' then replicate 8 0
                else [1, 2, 3, 4, 5, 6, 7, 8, 9, 10]),
      normalize = (\<lambda>audio. map (\<lambda>x. x / foldr max (map abs audio) 0) audio)\<rparr>"

definition example_reader :: audio_reader where
  "example_reader =
     \<lparr>sample_size = Some 2, receptive_field = 1, silence_threshold = None,
      gc_enabled = True, lc_enabled = False, gc_category_cardinality = Some 10\<rparr>"


section \<open>The window loop in closed form\<close>

lemma pieces_stop: "length audio \<le> R + S \<Longrightarrow> pieces R S audio = []"
  by (cases "S = 0") (simp_all add: pieces_def)

lemma pieces_step:
  assumes "0 < S" and "R + S < length audio"
  shows "pieces R S audio = take (R + S) audio # pieces R S (drop S audio)"
proof -
  let ?m = "(length (drop S audio) - R - 1) div S"
  have "S \<le> length audio - R - 1" using assms by simp
  then have "(length audio - R - 1) div S = Suc ((length audio - R - 1 - S) div S)"
    using assms(1) by (simp add: le_div_geq)
  moreover have "length audio - R - 1 - S = length (drop S audio) - R - 1" by simp
  ultimately have n: "(length audio - R - 1) div S = Suc ?m" by simp
  have "[0..<Suc ?m] = 0 # map Suc [0..<?m]"
    by (simp add: upt_conv_Cons map_Suc_upt del: upt_Suc)
  then show ?thesis
    unfolding pieces_def n by (simp add: o_def add.commute del: upt_Suc)
qed

lemma window_loop_closed:
  assumes "0 < S"
  shows "window_loop lib self S category_id audio sess =
         Some (sess @ concat (map (piece_events lib self category_id)
                                  (pieces (receptive_field self) S audio)))"
proof (induction "length audio" arbitrary: audio sess rule: less_induct)
  case less
  show ?case
  proof (cases "receptive_field self + S < length audio")
    case True
    have "length (drop S audio) < length audio" using assms True by simp
    note IH = less [OF this]
    show ?thesis
      by (subst window_loop.simps)
         (simp add: True IH pieces_step [OF assms True] piece_events_def Let_def)
  next
    case False
    then show ?thesis
      by (subst window_loop.simps) (simp add: pieces_stop)
  qed
qed

lemma enqueued_append: "enqueued (xs @ ys) = enqueued xs @ enqueued ys"
  by (simp add: enqueued_def)

lemma enqueued_piece_events: "enqueued (piece_events lib self c p) = [p]"
  by (simp add: enqueued_def piece_events_def)

lemma enqueued_pieces:
  "enqueued (concat (map (piece_events lib self c) ps)) = ps"
  by (induction ps) (simp_all add: enqueued_append enqueued_piece_events, simp add: enqueued_def)

lemma length_pieces: "length (pieces R S audio) = (length audio - R - 1) div S"
  by (simp add: pieces_def)

lemma nth_pieces:
  "i < length (pieces R S audio) \<Longrightarrow> pieces R S audio ! i = take (R + S) (drop (i * S) audio)"
  by (simp add: pieces_def)

lemma piece_in_range:
  assumes "i < (length audio - R - 1) div S"
  shows "i * S + R + S < length audio"
proof -
  have "Suc i * S \<le> ((length audio - R - 1) div S) * S"
    using assms by (intro mult_le_mono1) simp
  also have "\<dots> \<le> length audio - R - 1" by simp
  finally have "i * S + S \<le> length audio - R - 1" by simp
  moreover have "0 < (length audio - R - 1)" using assms by (cases "length audio - R - 1 = 0") simp_all
  ultimately show ?thesis by simp
qed

section \<open>The loop over the file names\<close>

lemma cardinality_loop_Some:
  "\<forall>f \<in> set files. findall f \<noteq> [] \<Longrightarrow>
   cardinality_loop files (Some a, Some b) =
     Inr (Some (Min (insert a (pianist_id ` set files))),
          Some (Max (insert b (pianist_id ` set files))))"
proof (induction files arbitrary: a b)
  case Nil
  then show ?case by simp
next
  case (Cons f files)
  let ?A = "pianist_id ` set files"
  obtain m ms where m: "findall f = m # ms"
    using Cons.prems by (cases "findall f") auto
  have p: "py_int (fst m) = pianist_id f" by (simp add: pianist_id_def m)
  have fin: "finite ?A" by simp
  have mn: "Min (insert (min (pianist_id f) a) ?A) = Min (insert a (insert (pianist_id f) ?A))"
    using fin by (cases "?A = {}") (simp_all add: min.commute min.left_commute insert_commute)
  have mx: "Max (insert (max (pianist_id f) b) ?A) = Max (insert b (insert (pianist_id f) ?A))"
    using fin by (cases "?A = {}") (simp_all add: max.commute max.left_commute insert_commute)
  have "cardinality_loop (f # files) (Some a, Some b) =
        cardinality_loop files (Some (min (pianist_id f) a), Some (max (pianist_id f) b))"
    by (simp add: m p Let_def min_def max_def)
  also have "\<dots> = Inr (Some (Min (insert (min (pianist_id f) a) ?A)),
                        Some (Max (insert (max (pianist_id f) b) ?A)))"
    using Cons.prems by (intro Cons.IH) simp
  finally show ?case by (simp add: mn mx)
qed

lemma get_category_cardinality_all_match:
  assumes "files \<noteq> []" and "\<forall>f \<in> set files. findall f \<noteq> []"
  shows "get_category_cardinality files =
           Inr (Some (Min (pianist_id ` set files)), Some (Max (pianist_id ` set files)))"
proof -
  obtain f fs where fs: "files = f # fs" using assms(1) by (cases files) auto
  obtain m ms where m: "findall f = m # ms"
    using assms(2) fs by (cases "findall f") auto
  have p: "py_int (fst m) = pianist_id f" by (simp add: pianist_id_def m)
  have "get_category_cardinality files =
        cardinality_loop fs (Some (pianist_id f), Some (pianist_id f))"
    by (simp add: get_category_cardinality_def fs m p Let_def)
  also have "\<dots> = Inr (Some (Min (insert (pianist_id f) (pianist_id ` set fs))),
                        Some (Max (insert (pianist_id f) (pianist_id ` set fs))))"
    using assms(2) fs by (intro cardinality_loop_Some) simp
  finally show ?thesis by (simp add: fs)
qed

lemma not_all_have_id_iff: "not_all_have_id files \<longleftrightarrow> (\<exists>f \<in> set files. findall f = [])"
  by (induction files) auto

lemma cardinality_loop_no_match:
  "\<exists>f \<in> set files. findall f = [] \<Longrightarrow> cardinality_loop files st = Inl IndexError"
proof (induction files arbitrary: st)
  case Nil
  then show ?case by simp
next
  case (Cons f files)
  obtain mn mx where st: "st = (mn, mx)" by (cases st)
  show ?case
  proof (cases "findall f")
    case Nil
    then show ?thesis by (simp add: st)
  next
    case (Cons m ms)
    with Cons.prems have "\<exists>f \<in> set files. findall f = []" by auto
    then show ?thesis by (simp add: st Cons Cons.IH Let_def)
  qed
qed

section \<open>Claims about the segmentation\<close>

text \<open>
  C1 (as amended).  With a positive \<open>sample_size\<close> \<open>S\<close>, the window loop returns, and on a
  padded waveform of length \<open>L\<close> it pushes \<open>\<lceil>(L - R - S) / S\<rceil>\<close> windows when \<open>L > R + S\<close>
  and none otherwise.  The ceiling is written \<open>(L - R - S + (S - 1)) div S\<close>.
\<close>

theorem window_count:
  "0 < S \<Longrightarrow>
   map_option (\<lambda>sess. length (enqueued sess)) (window_loop lib self S category_id audio []) =
   Some (if length audio > receptive_field self + S
         then (length audio - receptive_field self - S + (S - 1)) div S else 0)"
proof -
  assume S: "0 < S"
  let ?R = "receptive_field self"
  have "length audio > ?R + S \<Longrightarrow> length audio - ?R - S + (S - 1) = length audio - ?R - 1"
    using S by simp
  moreover have "\<not> length audio > ?R + S \<Longrightarrow> (length audio - ?R - 1) div S = 0"
    using S by simp
  ultimately show ?thesis
    by (simp add: window_loop_closed [OF S] enqueued_pieces length_pieces)
qed

theorem window_count_witness:
  "(0::nat) < 2 \<and>
   map_option (\<lambda>sess. length (enqueued sess))
     (window_loop example_library example_reader 2 (Some 3) [0, 1, 2, 3, 4, 5, 6, 7] []) = Some 3"
proof -
  have r: "receptive_field example_reader = 1" by (simp add: example_reader_def)
  show ?thesis
    using window_count [where S = 2 and lib = example_library and self = example_reader
        and category_id = "Some 3" and audio = "[0, 1, 2, 3, 4, 5, 6, 7]"]
    by (simp add: r numeral_3_eq_3)
qed

text \<open>
  The count of C1 as the specification states it, \<open>\<lfloor>(L - R - S) / S\<rfloor>\<close>, is one short
  whenever \<open>S\<close> does not divide \<open>L - R - S\<close>: four samples, \<open>R = 1\<close>, \<open>S = 2\<close> give one
  window, and the floor is zero.
\<close>

theorem window_count_floor_counterexample:
  "map_option (\<lambda>sess. length (enqueued sess))
     (window_loop example_library example_reader 2 (Some 3) [0, 1, 2, 3] []) = Some 1 \<and>
   receptive_field example_reader + 2 < length [0, 1, 2, 3 :: real] \<and>
   (length [0, 1, 2, 3 :: real] - receptive_field example_reader - 2) div 2 = 0"
  by code_simp

text \<open>
  C6.  With a positive \<open>sample_size\<close> \<open>S\<close>, every window pushed by the loop has exactly
  \<open>R + S\<close> samples, and the first \<open>R\<close> samples of each later window are the samples of
  the window before it from position \<open>S\<close> on (its last \<open>R\<close>).  Window \<open>i\<close> is the slice
  of the waveform from \<open>i * S\<close> to \<open>i * S + R + S\<close>, so two consecutive windows share the
  \<open>R\<close> positions from \<open>(i + 1) * S\<close> to \<open>i * S + R + S\<close> and no others.
\<close>

theorem window_overlap:
  assumes "0 < S"
  shows "case window_loop lib self S category_id audio [] of
           None \<Rightarrow> False
         | Some sess \<Rightarrow>
             (\<forall>w \<in> set (enqueued sess). length w = receptive_field self + S) \<and>
             (\<forall>i. Suc i < length (enqueued sess) \<longrightarrow>
                  take (receptive_field self) (enqueued sess ! Suc i) = drop S (enqueued sess ! i)) \<and>
             (\<forall>i < length (enqueued sess).
                  enqueued sess ! i = py_slice (i * S) (i * S + (receptive_field self + S)) audio)"
proof -
  let ?R = "receptive_field self"
  let ?ws = "pieces ?R S audio"
  have len: "length (?ws ! i) = ?R + S" if "i < length ?ws" for i
    using that piece_in_range [of i audio ?R S] by (simp add: nth_pieces length_pieces)
  have a: "\<forall>w \<in> set ?ws. length w = ?R + S"
    using len by (auto simp: in_set_conv_nth)
  have b: "take ?R (?ws ! Suc i) = drop S (?ws ! i)" if "Suc i < length ?ws" for i
  proof -
    have "i < length ?ws" using that by simp
    then show ?thesis using that
      by (simp add: nth_pieces drop_take add.commute)
  qed
  have c: "?ws ! i = py_slice (i * S) (i * S + (?R + S)) audio" if "i < length ?ws" for i
    using that by (simp add: nth_pieces py_slice_def drop_take)
  show ?thesis
    using a b c by (simp add: window_loop_closed [OF assms] enqueued_pieces)
qed

theorem window_overlap_witness:
  "(0::nat) < 2 \<and>
   window_loop example_library example_reader 2 (Some 3) [0, 1, 2, 3, 4, 5] [] =
     Some [Enqueue [0, 1, 2], GcEnqueue (Some 3), Enqueue [2, 3, 4], GcEnqueue (Some 3)] \<and>
   length [0, 1, 2 :: real] = receptive_field example_reader + 2 \<and>
   take (receptive_field example_reader) [2, 3, 4 :: real] = drop 2 [0, 1, 2]"
proof -
  let ?sess = "[Enqueue [0, 1, 2], GcEnqueue (Some 3), Enqueue [2, 3, 4], GcEnqueue (Some 3)]"
  let ?R = "receptive_field example_reader"
  have e: "window_loop example_library example_reader 2 (Some 3) [0, 1, 2, 3, 4, 5] [] = Some ?sess"
    by code_simp
  have q: "enqueued ?sess = [[0, 1, 2], [2, 3, 4]]"
    by (simp add: enqueued_def)
  have pos: "(0::nat) < 2" by simp
  have F: "(\<forall>w \<in> set (enqueued ?sess). length w = ?R + 2) \<and>
        (\<forall>i. Suc i < length (enqueued ?sess) \<longrightarrow>
            take ?R (enqueued ?sess ! Suc i) = drop 2 (enqueued ?sess ! i)) \<and>
        (\<forall>i < length (enqueued ?sess).
            enqueued ?sess ! i = py_slice (i * 2) (i * 2 + (?R + 2)) [0, 1, 2, 3, 4, 5])"
    using window_overlap [OF pos, where lib = example_library and self = example_reader
        and category_id = "Some 3" and audio = "[0, 1, 2, 3, 4, 5]"]
    by (simp only: e option.case)
  have "[0, 1, 2] \<in> set (enqueued ?sess)" by (simp add: q)
  with F have a: "length [0, 1, 2 :: real] = ?R + 2" by blast
  have "Suc 0 < length (enqueued ?sess)" by (simp add: q)
  with F have "take ?R (enqueued ?sess ! Suc 0) = drop 2 (enqueued ?sess ! 0)" by blast
  then have b: "take ?R [2, 3, 4 :: real] = drop 2 [0, 1, 2]" by (simp add: q)
  from pos e a b show ?thesis by blast
qed

section \<open>Claims about the category range\<close>

text \<open>
  C8.  On a non-empty list of file names that all match the pattern,
  \<open>get_category_cardinality\<close> returns the least and the greatest pianist id, and the
  constructor with global conditioning on stores the greatest id plus one.
\<close>

theorem cardinality_min_max:
  assumes "files \<noteq> []" and "\<forall>f \<in> set files. findall f \<noteq> []"
  shows "get_category_cardinality files =
           Inr (Some (Min (pianist_id ` set files)), Some (Max (pianist_id ` set files))) \<and>
         map_sum id gc_category_cardinality (AudioReader_init files True lc rf ss st) =
           Inr (Some (Max (pianist_id ` set files) + 1))"
  using assms
  by (simp add: get_category_cardinality_all_match AudioReader_init_def not_all_have_id_iff)

theorem cardinality_min_max_witness:
  "get_category_cardinality [''corpus/p2_1.wav'', ''corpus/p9_4.wav'', ''corpus/p5_12.wav''] =
     Inr (Some 2, Some 9) \<and>
   map_sum id gc_category_cardinality
     (AudioReader_init [''corpus/p2_1.wav'', ''corpus/p9_4.wav'', ''corpus/p5_12.wav'']
        True False 1 None None) = Inr (Some 10)"
proof -
  let ?files = "[''corpus/p2_1.wav'', ''corpus/p9_4.wav'', ''corpus/p5_12.wav'']"
  have "list_all (\<lambda>f. findall f \<noteq> []) ?files" by code_simp
  then have m: "\<forall>f \<in> set ?files. findall f \<noteq> []" by (simp only: list_all_iff)
  have ne: "?files \<noteq> []" by simp
  have "map pianist_id ?files = [2, 9, 5]" by code_simp
  then have "set (map pianist_id ?files) = set [2, 9, 5]" by (rule arg_cong)
  then have ids: "pianist_id ` set ?files = {2, 9, 5}" by (simp only: set_map list.set)
  have mm: "Min {2, 9, 5 :: int} = 2" "Max {2, 9, 5 :: int} + 1 = 10" by simp_all
  show ?thesis
    using cardinality_min_max [OF ne m, of False 1 None None]
    by (simp only: ids mm) simp
qed

text \<open>
  C10.  \<open>get_category_cardinality\<close> raises \<open>IndexError\<close> when some file name has no match;
  a non-empty list on which \<open>not_all_have_id\<close> is false has a match in every name, so the
  call does not raise it there; and the constructor never ends in \<open>IndexError\<close>.
\<close>

theorem index_error_unreachable:
  "((\<exists>f \<in> set files. findall f = []) \<longrightarrow> get_category_cardinality files = Inl IndexError) \<and>
   (files \<noteq> [] \<and> \<not> not_all_have_id files \<longrightarrow>
      (\<forall>f \<in> set files. findall f \<noteq> []) \<and> get_category_cardinality files \<noteq> Inl IndexError) \<and>
   AudioReader_init files gc lc rf ss st \<noteq> Inl IndexError"
proof (intro conjI impI)
  assume "\<exists>f \<in> set files. findall f = []"
  then show "get_category_cardinality files = Inl IndexError"
    by (simp add: get_category_cardinality_def cardinality_loop_no_match)
next
  assume a: "files \<noteq> [] \<and> \<not> not_all_have_id files"
  then show "\<forall>f \<in> set files. findall f \<noteq> []" by (simp add: not_all_have_id_iff)
  with a show "get_category_cardinality files \<noteq> Inl IndexError"
    by (simp add: get_category_cardinality_all_match)
next
  show "AudioReader_init files gc lc rf ss st \<noteq> Inl IndexError"
  proof (cases "files \<noteq> [] \<and> gc \<and> \<not> not_all_have_id files")
    case True
    then have "\<forall>f \<in> set files. findall f \<noteq> []" by (simp add: not_all_have_id_iff)
    with True show ?thesis
      by (simp add: AudioReader_init_def get_category_cardinality_all_match)
  next
    case False
    then show ?thesis by (auto simp: AudioReader_init_def Let_def)
  qed
qed

theorem index_error_unreachable_witness:
  "get_category_cardinality [''corpus/p2_1.wav'', ''corpus/recording.wav''] = Inl IndexError \<and>
   AudioReader_init [''corpus/p2_1.wav'', ''corpus/recording.wav''] True False 1 None None =
     Inl (ValueError ''Global conditioning is enabled, but file names do not conform to pattern having id.'') \<and>
   get_category_cardinality [''corpus/p2_1.wav'', ''corpus/p7_3.wav''] \<noteq> Inl IndexError \<and>
   AudioReader_init [''corpus/p2_1.wav'', ''corpus/p7_3.wav''] True False 1 None None \<noteq> Inl IndexError"
proof -
  let ?bad = "[''corpus/p2_1.wav'', ''corpus/recording.wav'']"
  let ?good = "[''corpus/p2_1.wav'', ''corpus/p7_3.wav'']"
  have "list_ex (\<lambda>f. findall f = []) ?bad" by code_simp
  then have b: "\<exists>f \<in> set ?bad. findall f = []" by (simp only: list_ex_iff)
  have "\<not> not_all_have_id ?good" by code_simp
  then have g: "?good \<noteq> [] \<and> \<not> not_all_have_id ?good" by blast
  have i: "AudioReader_init ?bad True False 1 None None =
     Inl (ValueError ''Global conditioning is enabled, but file names do not conform to pattern having id.'')"
    by code_simp
  from b index_error_unreachable [of ?bad True False 1 None None]
  have 1: "get_category_cardinality ?bad = Inl IndexError" by blast
  from g index_error_unreachable [of ?good True False 1 None None]
  have 2: "get_category_cardinality ?good \<noteq> Inl IndexError" by blast
  from index_error_unreachable [of ?good True False 1 None None]
  have 3: "AudioReader_init ?good True False 1 None None \<noteq> Inl IndexError" by blast
  from 1 i 2 3 show ?thesis by blast
qed

section \<open>The rows of the conditioning embedding\<close>

lemma np_put_one_length: "length (np_put_one row ind) = length row"
  unfolding np_put_one_def by (induction ind arbitrary: row) simp_all

lemma np_put_one_nth:
  "j < length row \<Longrightarrow> np_put_one row ind ! j = (if j \<in> set ind then 1 else row ! j)"
  unfolding np_put_one_def
proof (induction ind arbitrary: row)
  case Nil
  then show ?case by simp
next
  case (Cons i ind)
  have "j < length (row[i := 1])" using Cons.prems by simp
  from Cons.IH [OF this] Cons.prems show ?case
    by (auto simp: nth_list_update)
qed

lemma nonzero_cnt_card: "nonzero_cnt xs = card {i. i < length xs \<and> xs ! i \<noteq> 0}"
  by (simp add: nonzero_cnt_def length_filter_conv_card)

lemma nonzero_cnt_le: "nonzero_cnt xs \<le> length xs"
  by (simp add: nonzero_cnt_def)

lemma lc_row_length: "length (lc_row lib mag) = length mag"
  by (simp add: lc_row_def Let_def np_put_one_length)

lemma lc_row_none:
  "min (nonzero_cnt mag) 6 = 0 \<Longrightarrow> lc_row lib mag = replicate (length mag) 0"
  by (simp add: lc_row_def np_put_one_def)

lemma lc_row_top:
  fixes mag :: "real list" and lib :: library
  defines "k \<equiv> min (nonzero_cnt mag) 6"
  defines "p \<equiv> argpartition lib mag (- int k)"
  defines "sel \<equiv> py_last_n k p"
  assumes nonneg: "\<forall>x \<in> set mag. 0 \<le> x"
      and k0: "k \<noteq> 0"
      and ok: "argpartition_ok mag (- int k) p"
  shows "distinct sel" and "length sel = k" and "set sel \<subseteq> {..<length mag}"
    and "\<forall>j < length mag. lc_row lib mag ! j = (if j \<in> set sel then 1 else 0)"
    and "\<forall>j \<in> set sel. mag ! j \<noteq> 0 \<and> (\<forall>j' < length mag. j' \<notin> set sel \<longrightarrow> mag ! j' \<le> mag ! j)"
proof -
  let ?n = "length mag"
  have kn: "k \<le> ?n" using nonzero_cnt_le [of mag] by (simp add: k_def)
  have kth: "nat (if - int k < 0 then - int k + int ?n else - int k) = ?n - k"
    using k0 kn by simp
  from ok have srt: "sort p = [0..<?n]"
    and lo: "list_all (\<lambda>i. mag ! i \<le> mag ! (p ! (?n - k))) (take (?n - k) p)"
    and hi: "list_all (\<lambda>i. mag ! (p ! (?n - k)) \<le> mag ! i) (drop (?n - k) p)"
    unfolding argpartition_ok_def Let_def kth by simp_all
  have lp: "length p = ?n" using arg_cong [OF srt, of length] by simp
  have sp: "set p = {..<?n}" using arg_cong [OF srt, of set] by (simp add: lessThan_atLeast0)
  have dp: "distinct p" using arg_cong [OF srt, of distinct] by simp
  have sel: "sel = drop (?n - k) p" by (simp add: sel_def py_last_n_def lp)
  show d: "distinct sel" using dp by (simp add: sel)
  show l: "length sel = k" using kn by (simp add: sel lp)
  show sub: "set sel \<subseteq> {..<?n}" using set_drop_subset [of "?n - k" p] by (simp add: sel sp)
  show "\<forall>j < ?n. lc_row lib mag ! j = (if j \<in> set sel then 1 else 0)"
    using k0 by (simp add: lc_row_def Let_def np_put_one_nth k_def [symmetric] p_def [symmetric]
        sel_def [symmetric])
  have split: "set (take (?n - k) p) \<union> set sel = {..<?n}"
    using set_append [of "take (?n - k) p" "drop (?n - k) p"] by (simp add: sel sp)
  have pivot_sel: "p ! (?n - k) \<in> set sel"
  proof -
    have "sel \<noteq> []" using l k0 by auto
    then have "hd sel \<in> set sel" by simp
    moreover have "hd sel = p ! (?n - k)"
      using k0 kn by (simp add: sel hd_drop_conv_nth lp)
    ultimately show ?thesis by simp
  qed
  have above: "mag ! (p ! (?n - k)) \<le> mag ! j" if "j \<in> set sel" for j
    using hi that by (simp add: list_all_iff sel)
  have below: "mag ! j' \<le> mag ! (p ! (?n - k))" if "j' < ?n" "j' \<notin> set sel" for j'
  proof -
    from that split have "j' \<in> set (take (?n - k) p)" by blast
    with lo show ?thesis by (simp add: list_all_iff)
  qed
  have nz: "mag ! j \<noteq> 0" if j: "j \<in> set sel" for j
  proof
    assume z: "mag ! j = 0"
    have zero_out: "mag ! j' = 0" if "j' < ?n" "j' \<notin> set sel" for j'
    proof -
      have "mag ! j' \<le> 0" using below [OF that] above [OF j] z by simp
      moreover have "0 \<le> mag ! j'" using nonneg that(1) by simp
      ultimately show ?thesis by simp
    qed
    have "{i. i < ?n \<and> mag ! i \<noteq> 0} \<subseteq> set sel - {j}"
      using zero_out z by auto
    then have "card {i. i < ?n \<and> mag ! i \<noteq> 0} \<le> card (set sel - {j})"
      by (intro card_mono) simp_all
    also have "\<dots> = k - 1" using j d l by (simp add: distinct_card)
    finally have "nonzero_cnt mag \<le> k - 1" by (simp add: nonzero_cnt_card)
    moreover have "k \<le> nonzero_cnt mag" by (simp add: k_def)
    ultimately show False using k0 by simp
  qed
  show "\<forall>j \<in> set sel. mag ! j \<noteq> 0 \<and> (\<forall>j' < ?n. j' \<notin> set sel \<longrightarrow> mag ! j' \<le> mag ! j)"
  proof (intro ballI conjI allI impI)
    fix j assume "j \<in> set sel"
    then show "mag ! j \<noteq> 0" by (rule nz)
  next
    fix j j' assume "j \<in> set sel" "j' < ?n" "j' \<notin> set sel"
    then show "mag ! j' \<le> mag ! j"
      using below [of j'] above [of j] by simp
  qed
qed


lemma lc_row_spec:
  fixes mag :: "real list" and lib :: library
  assumes nonneg: "\<forall>x \<in> set mag. 0 \<le> x"
      and ok: "min (nonzero_cnt mag) 6 \<noteq> 0 \<longrightarrow>
                 argpartition_ok mag (- int (min (nonzero_cnt mag) 6))
                   (argpartition lib mag (- int (min (nonzero_cnt mag) 6)))"
  shows "length (lc_row lib mag) = length mag \<and>
         (\<forall>x \<in> set (lc_row lib mag). x = 0 \<or> x = 1) \<and>
         nonzero_cnt (lc_row lib mag) = min (nonzero_cnt mag) 6 \<and>
         nonzero_cnt (lc_row lib mag) \<le> 6 \<and>
         (\<forall>j < length mag. lc_row lib mag ! j \<noteq> 0 \<longrightarrow>
            mag ! j \<noteq> 0 \<and>
            (\<forall>j' < length mag. lc_row lib mag ! j' = 0 \<longrightarrow> mag ! j' \<le> mag ! j)) \<and>
         ((\<forall>x \<in> set mag. x = 0) \<longrightarrow> (\<forall>x \<in> set (lc_row lib mag). x = 0))"
proof (cases "min (nonzero_cnt mag) 6 = 0")
  case True
  have "nonzero_cnt (replicate (length mag) (0::real)) = 0"
    by (simp add: nonzero_cnt_def)
  then show ?thesis
    by (simp add: lc_row_none [OF True] True)
next
  case False
  let ?k = "min (nonzero_cnt mag) 6"
  let ?sel = "py_last_n ?k (argpartition lib mag (- int ?k))"
  let ?row = "lc_row lib mag"
  from ok False have ok': "argpartition_ok mag (- int ?k) (argpartition lib mag (- int ?k))"
    by simp
  note top = lc_row_top [OF nonneg False ok']
  have row: "?row ! j = (if j \<in> set ?sel then 1 else 0)" if "j < length mag" for j
    using top(4) that by simp
  have vals: "\<forall>x \<in> set ?row. x = 0 \<or> x = 1"
  proof
    fix x assume "x \<in> set ?row"
    then obtain j where "j < length mag" "x = ?row ! j"
      by (auto simp: in_set_conv_nth lc_row_length)
    then show "x = 0 \<or> x = 1" using row [of j] by simp
  qed
  have "{i. i < length ?row \<and> ?row ! i \<noteq> 0} = set ?sel"
    using row top(3) by (auto simp: lc_row_length split: if_splits)
  then have cnt: "nonzero_cnt ?row = ?k"
    using top(1,2) by (simp add: nonzero_cnt_card distinct_card)
  have peaks: "\<forall>j < length mag. ?row ! j \<noteq> 0 \<longrightarrow>
            mag ! j \<noteq> 0 \<and> (\<forall>j' < length mag. ?row ! j' = 0 \<longrightarrow> mag ! j' \<le> mag ! j)"
  proof (intro allI impI)
    fix j assume j: "j < length mag" "?row ! j \<noteq> 0"
    then have js: "j \<in> set ?sel" using row [of j] by (simp split: if_splits)
    have "\<forall>j' < length mag. ?row ! j' = 0 \<longrightarrow> j' \<notin> set ?sel"
      using row by auto
    with top(5) js
    show "mag ! j \<noteq> 0 \<and> (\<forall>j' < length mag. ?row ! j' = 0 \<longrightarrow> mag ! j' \<le> mag ! j)"
      by blast
  qed
  have some: "\<not> (\<forall>x \<in> set mag. x = 0)"
  proof
    assume "\<forall>x \<in> set mag. x = 0"
    then have "filter (\<lambda>x. x \<noteq> 0) mag = []" by (simp add: filter_empty_conv)
    then have "nonzero_cnt mag = 0" by (simp add: nonzero_cnt_def)
    with False show False by simp
  qed
  then have az: "(\<forall>x \<in> set mag. x = 0) \<longrightarrow> (\<forall>x \<in> set ?row. x = 0)" by blast
  have le6: "nonzero_cnt ?row \<le> 6" using cnt by simp
  have len: "length ?row = length mag" by (rule lc_row_length)
  from len vals cnt le6 peaks az show ?thesis by blast
qed

text \<open>
  C7.  Take the magnitudes of the pitch primitive to be non-negative and the index array
  of \<^verbatim>\<open>np.argpartition\<close> to keep its promise on every frame.  Then each row of the
  embedding has the length of its frame, holds only 0 and 1, has exactly
  \<open>min (number of nonzero magnitudes) 6\<close> ones (so at most six), every one sits at an
  index whose magnitude is nonzero and not below the magnitude at any index left at 0,
  and a frame of zeros gives a row of zeros.
\<close>

theorem lc_embedding_rows:
  assumes "\<forall>mag \<in> set (transpose (piptrack lib piece)).
             (\<forall>x \<in> set mag. 0 \<le> x) \<and>
             (min (nonzero_cnt mag) 6 \<noteq> 0 \<longrightarrow>
                argpartition_ok mag (- int (min (nonzero_cnt mag) 6))
                  (argpartition lib mag (- int (min (nonzero_cnt mag) 6))))"
      and "i < length (transpose (piptrack lib piece))"
  shows "let mag = transpose (piptrack lib piece) ! i; row = lc_embedding lib piece ! i in
           length row = length mag \<and>
           (\<forall>x \<in> set row. x = 0 \<or> x = 1) \<and>
           nonzero_cnt row = min (nonzero_cnt mag) 6 \<and>
           nonzero_cnt row \<le> 6 \<and>
           (\<forall>j < length mag. row ! j \<noteq> 0 \<longrightarrow>
              mag ! j \<noteq> 0 \<and> (\<forall>j' < length mag. row ! j' = 0 \<longrightarrow> mag ! j' \<le> mag ! j)) \<and>
           ((\<forall>x \<in> set mag. x = 0) \<longrightarrow> (\<forall>x \<in> set row. x = 0))"
proof -
  let ?mags = "transpose (piptrack lib piece)"
  have m: "?mags ! i \<in> set ?mags" using assms(2) by simp
  have r: "lc_embedding lib piece ! i = lc_row lib (?mags ! i)"
    using assms(2) by (simp add: lc_embedding_def lc_rows_def)
  from assms(1) m have
    "(\<forall>x \<in> set (?mags ! i). 0 \<le> x) \<and>
     (min (nonzero_cnt (?mags ! i)) 6 \<noteq> 0 \<longrightarrow>
        argpartition_ok (?mags ! i) (- int (min (nonzero_cnt (?mags ! i)) 6))
          (argpartition lib (?mags ! i) (- int (min (nonzero_cnt (?mags ! i)) 6))))"
    by (rule bspec)
  then show ?thesis
    unfolding Let_def r using lc_row_spec [of "?mags ! i" lib] by blast
qed

theorem lc_embedding_rows_witness:
  "lc_embedding example_library [0, 1, 2] =
     [[1, 0, 1, 0, 1, 1, 1, 1], [0, 0, 0, 0, 0, 0, 0, 0]] \<and>
   transpose (piptrack example_library [0, 1, 2]) ! 0 = [3, 0, 5, 1, 4, 2, 7, 6] \<and>
   nonzero_cnt (lc_embedding example_library [0, 1, 2] ! 0) =
     min (nonzero_cnt (transpose (piptrack example_library [0, 1, 2]) ! 0)) 6 \<and>
   nonzero_cnt (lc_embedding example_library [0, 1, 2] ! 0) \<le> 6"
proof -
  let ?mags = "transpose (piptrack example_library [0, 1, 2])"
  have "list_all (\<lambda>mag. list_all (\<lambda>x. 0 \<le> x) mag \<and>
           (min (nonzero_cnt mag) 6 \<noteq> 0 \<longrightarrow>
              argpartition_ok mag (- int (min (nonzero_cnt mag) 6))
                (argpartition example_library mag (- int (min (nonzero_cnt mag) 6))))) ?mags"
    by code_simp
  then have h: "\<forall>mag \<in> set ?mags.
             (\<forall>x \<in> set mag. 0 \<le> x) \<and>
             (min (nonzero_cnt mag) 6 \<noteq> 0 \<longrightarrow>
                argpartition_ok mag (- int (min (nonzero_cnt mag) 6))
                  (argpartition example_library mag (- int (min (nonzero_cnt mag) 6))))"
    by (simp only: list_all_iff)
  have i: "0 < length ?mags" by code_simp
  have e: "lc_embedding example_library [0, 1, 2] =
     [[1, 0, 1, 0, 1, 1, 1, 1], [0, 0, 0, 0, 0, 0, 0, 0]]"
    by code_simp
  have m: "?mags ! 0 = [3, 0, 5, 1, 4, 2, 7, 6]" by code_simp
  from lc_embedding_rows [OF h i]
  have "nonzero_cnt (lc_embedding example_library [0, 1, 2] ! 0) =
          min (nonzero_cnt (?mags ! 0)) 6 \<and>
        nonzero_cnt (lc_embedding example_library [0, 1, 2] ! 0) \<le> 6"
    unfolding Let_def by blast
  with e m show ?thesis by blast
qed

section \<open>The worker on the shapes of its waveform\<close>

lemma thread_main_body_Vec:
  "thread_main_body lib self (Vec xs) filename category_id sess =
     Some (Raised (case silence_threshold self of
                     None \<Rightarrow> pad_error (receptive_field self)
                   | Some threshold \<Rightarrow> IndexError) sess)"
  by (simp add: thread_main_body_def np_pad_def split: option.splits)


lemma thread_main_body_Col_whole:
  assumes "sample_size self = None \<or> sample_size self = Some 0"
  shows "thread_main_body lib self (Col column) filename category_id sess =
     (let xs = (case silence_threshold self of
                  None \<Rightarrow> column
                | Some threshold \<Rightarrow> trim_silence lib column threshold 2048);
          sess1 = (if silence_threshold self \<noteq> None \<and> xs = []
                   then sess @ [Print (silence_warning filename)] else sess)
      in Some (Returned (sess1 @ [Enqueue (replicate (receptive_field self) 0 @ xs)] @
                 (if gc_enabled self then [GcEnqueue category_id] else []))))"
  using assms
  by (auto simp: thread_main_body_def np_pad_def Let_def split: option.splits)

lemma load_generic_audio_Vec:
  "\<forall>item \<in> set (load_generic_audio lib sample_rate files). \<exists>xs. fst item = Vec xs"
  by (auto simp: load_generic_audio_def Let_def)

lemma file_loop_first_raises:
  assumes "\<not> should_stop sess"
  shows "file_loop lib self should_stop
           (load_generic_audio lib sample_rate (f # fs)) sess =
         Some (Raised (case silence_threshold self of
                         None \<Rightarrow> pad_error (receptive_field self)
                       | Some threshold \<Rightarrow> IndexError) sess)"
  using assms
  by (simp add: load_generic_audio_def Let_def thread_main_body_Vec)

lemma thread_main_first_raises:
  assumes "randomized epoch = f # fs"
      and "\<not> should_stop (sess @ [Print (files_length_message (Suc (length fs)))])"
  shows "thread_main lib self sample_rate should_stop randomized epoch sess =
         Some (Raised (case silence_threshold self of
                         None \<Rightarrow> pad_error (receptive_field self)
                       | Some threshold \<Rightarrow> IndexError)
                 (sess @ [Print (files_length_message (Suc (length fs)))]))"
proof -
  have "file_loop lib self should_stop (load_generic_audio lib sample_rate (f # fs))
          (sess @ [Print (files_length_message (Suc (length fs)))]) =
        Some (Raised (case silence_threshold self of
                         None \<Rightarrow> pad_error (receptive_field self)
                       | Some threshold \<Rightarrow> IndexError)
                 (sess @ [Print (files_length_message (Suc (length fs)))]))"
    using assms(2) by (rule file_loop_first_raises)
  then show ?thesis
    by (subst thread_main.simps) (simp add: assms(1) Let_def)
qed

section \<open>Claims about the worker\<close>


text \<open>
  Had the waveform the shape \<open>(n, 1)\<close> that the body indexes, the whole-file branch would
  push the sample and the category id and still no embedding.
\<close>

lemma whole_file_column_has_no_lc_push:
  "thread_main_body example_library
     \<lparr>sample_size = None, receptive_field = 1, silence_threshold = None,
      gc_enabled = True, lc_enabled = True, gc_category_cardinality = Some 10\<rparr>
     (Col [1, 2, 3, 4, 5]) ''corpus/p3_1.wav'' (Some 3) [] =
     Some (Returned [Enqueue [0, 1, 2, 3, 4, 5], GcEnqueue (Some 3)])"
  by code_simp

text \<open>
  C4, the code on a silent file that the iterator yields.  With a silence threshold set,
  \<^verbatim>\<open>audio[:, 0]\<close> raises \<open>IndexError\<close> on the waveform of shape \<open>(n,)\<close> before it is
  trimmed: no warning is printed and the worker ends, where the claim has the file
  skipped with a diagnostic and the worker going on to the next file.
\<close>

theorem silent_file_worker_raises:
  "load_generic_audio example_library 1 [''silent/p4_1.wav''] =
     [(Vec [0, 0, 0], ''silent/p4_1.wav'', Some 4)] \<and>
   thread_main example_library
     \<lparr>sample_size = None, receptive_field = 2, silence_threshold = Some (1 / 2),
      gc_enabled = True, lc_enabled = False, gc_category_cardinality = Some 10\<rparr>
     1 (\<lambda>sess. False) (\<lambda>epoch. [''silent/p4_1.wav'']) 0 [] =
     Some (Raised IndexError [Print ''files length: 1''])"
  by code_simp

text \<open>
  Had the waveform the shape \<open>(n, 1)\<close>, the silent file would be trimmed to nothing and
  warned about, and in whole-file mode its padding alone would then be pushed with the
  category id: no \<^verbatim>\<open>continue\<close> follows the warning.
\<close>

lemma silent_column_is_enqueued:
  "thread_main_body example_library
     \<lparr>sample_size = None, receptive_field = 2, silence_threshold = Some (1 / 2),
      gc_enabled = True, lc_enabled = False, gc_category_cardinality = Some 10\<rparr>
     (Col [0, 0, 0]) ''silent/p4_1.wav'' (Some 4) [] =
     Some (Returned [Print (silence_warning ''silent/p4_1.wav''), Enqueue [0, 0],
                     GcEnqueue (Some 4)])"
  by code_simp

text \<open>
  C9, the code on what the iterator yields.  With \<open>sample_size = 0\<close> the worker does what
  it does with \<open>sample_size\<close> unset, but that is to raise \<open>ValueError\<close> at the padding,
  before the test of \<open>sample_size\<close> is reached: the padded waveform is not enqueued.
\<close>

theorem zero_sample_size_worker_raises:
  "thread_main example_library
     \<lparr>sample_size = Some 0, receptive_field = 1, silence_threshold = None,
      gc_enabled = True, lc_enabled = False, gc_category_cardinality = Some 10\<rparr>
     1 (\<lambda>sess. False) (\<lambda>epoch. [''corpus/p3_1.wav'']) 0 [] =
     Some (Raised (pad_error 1) [Print ''files length: 1'']) \<and>
   thread_main example_library
     \<lparr>sample_size = None, receptive_field = 1, silence_threshold = None,
      gc_enabled = True, lc_enabled = False, gc_category_cardinality = Some 10\<rparr>
     1 (\<lambda>sess. False) (\<lambda>epoch. [''corpus/p3_1.wav'']) 0 [] =
     Some (Raised (pad_error 1) [Print ''files length: 1''])"
  by code_simp




section \<open>Claims about silence trimming\<close>

lemma trim_silence_unfold:
  "trim_silence lib audio threshold frame_length =
     (let energy = rmse lib audio
                     (if length audio < frame_length then length audio else frame_length);
          indices = map (\<lambda>f. f * 512)
                      (filter (\<lambda>j. energy ! j > float32 lib threshold) [0..<length energy])
      in if indices \<noteq> [] then drop (hd indices) (take (last indices) audio) else [])"
  by (simp add: trim_silence_def Let_def frames_to_samples_def py_slice_def)

lemma trim_silence_all_above:
  assumes "rmse lib audio
             (if length audio < frame_length then length audio else frame_length) \<noteq> []"
      and "\<forall>e \<in> set (rmse lib audio
             (if length audio < frame_length then length audio else frame_length)).
             float32 lib threshold < e"
  shows "trim_silence lib audio threshold frame_length =
           take (512 * (length (rmse lib audio
             (if length audio < frame_length then length audio else frame_length)) - 1)) audio"
proof -
  define E where
    "E = rmse lib audio (if length audio < frame_length then length audio else frame_length)"
  have "\<forall>j \<in> set [0..<length E]. E ! j > float32 lib threshold"
    using assms(2) by (simp add: E_def [symmetric])
  then have f: "filter (\<lambda>j. E ! j > float32 lib threshold) [0..<length E] = [0..<length E]"
    by (simp only: filter_id_conv)
  have n: "0 < length E" using assms(1) by (simp add: E_def)
  have ne: "map (\<lambda>f. f * 512) [0..<length E] \<noteq> []" using n by simp
  have h: "hd (map (\<lambda>f. f * 512) [0..<length E]) = 0"
    using n by (simp add: hd_map)
  have l: "last (map (\<lambda>f. f * 512) [0..<length E]) = 512 * (length E - 1)"
    using n by (simp add: last_map last_upt)
  show ?thesis
    unfolding trim_silence_unfold E_def [symmetric] Let_def f
    using ne by (simp only: h l drop_0) simp
qed

lemma peak_of_ones: "foldr max (map abs (replicate (Suc n) (1::real))) 0 = 1"
  by (induction n) simp_all

lemma example_rmse_ones:
  "rmse example_library (replicate (Suc n) 1) frame_length = replicate (1 + Suc n div 512) 1"
  by (simp only: example_library_def library.simps peak_of_ones length_replicate)

text \<open>
  C5, the code on loud waveforms.  Every frame's energy exceeds the threshold, and
  \<open>trim_silence\<close> cuts the waveform at the start sample of its last frame: three loud
  samples (one frame) come back as nothing, six hundred (two frames) as the first 512,
  where the claim has the waveform returned unchanged.
\<close>

theorem loud_waveform_loses_its_tail:
  "rmse example_library [1, 1, 1] 3 = [1] \<and>
   float32 example_library (1 / 2) < 1 \<and>
   trim_silence example_library [1, 1, 1] (1 / 2) 2048 = [] \<and>
   rmse example_library (replicate 600 1) 600 = [1, 1] \<and>
   trim_silence example_library (replicate 600 1) (1 / 2) 2048 = replicate 512 1"
proof -
  have a: "rmse example_library [1, 1, 1] 3 = [1] \<and>
           float32 example_library (1 / 2) < 1 \<and>
           trim_silence example_library [1, 1, 1] (1 / 2) 2048 = []"
    by code_simp
  have r: "rmse example_library (replicate 600 1) 600 = [1, 1]"
    using example_rmse_ones [of 599 600] by (simp add: numeral_2_eq_2)
  have fl: "(if length (replicate 600 (1::real)) < 2048 then length (replicate 600 (1::real))
             else 2048) = 600"
    by simp
  have c: "float32 example_library (1 / 2) = 1 / 2" by (simp add: example_library_def)
  have "trim_silence example_library (replicate 600 1) (1 / 2) 2048 =
          take (512 * (length [1, 1 :: real] - 1)) (replicate 600 1)"
    using trim_silence_all_above [of example_library "replicate 600 1" 2048 "1 / 2"]
    unfolding fl r c by simp
  then have b: "trim_silence example_library (replicate 600 1) (1 / 2) 2048 = replicate 512 1"
    by simp
  from a r b show ?thesis by blast
qed

end
